theory Spec2Isabelle
  imports
    Complex_Main
    "HOL-Library.Char_ord"
    "HOL-Library.List_Lexorder"
    "HOL-Library.Product_Lexorder"
begin

section \<open>The GitHub API data source (githubapi.py)\<close>

text \<open>
  Every metric of \<^verbatim>\<open>GitHubAPI\<close> fetches JSON from the remote API and reduces it to a
  table. The remote API is the only effect: it is modelled as a function from the request
  (the URL of a GET, the substituted fields of the GraphQL query of a POST) to the parsed
  response, and every metric returns the list of the requests it issued, in order,
  together with its result. The basic-auth pair \<^verbatim>\<open>('user', self.GITHUB_API_KEY)\<close> is the
  same on every request and is left out of the request.

  Python exceptions are values: a result is \<open>py_error + 'a\<close>, \<open>Inl\<close> the exception.
  The module defines no exception class of its own, so every error is a built-in one.
\<close>

datatype py_error = IndexError | KeyError | ZeroDivisionError | AttributeError
  | ValueError | TypeError | NameError

text \<open>The faults that come from an unguarded lookup or an unguarded arithmetic operation.\<close>

fun lookup_or_arith_fault :: "py_error \<Rightarrow> bool" where
  "lookup_or_arith_fault IndexError = True"
| "lookup_or_arith_fault KeyError = True"
| "lookup_or_arith_fault ZeroDivisionError = True"
| "lookup_or_arith_fault AttributeError = True"
| "lookup_or_arith_fault ValueError = False"
| "lookup_or_arith_fault TypeError = False"
| "lookup_or_arith_fault NameError = False"

subsection \<open>String formatting\<close>

text \<open>\<^verbatim>\<open>'{}'.format(x)\<close> for an optional string: \<^verbatim>\<open>None\<close> is formatted as \<^verbatim>\<open>None\<close>.\<close>

fun format_opt :: "string option \<Rightarrow> string" where
  "format_opt None = ''None''"
| "format_opt (Some s) = s"

text \<open>\<^verbatim>\<open>'{}'.format(i)\<close> for a non-negative integer: its decimal digits.\<close>

fun format_nat :: "nat \<Rightarrow> string" where
  "format_nat n =
     (if n < 10 then [''0123456789'' ! n]
      else format_nat (n div 10) @ [''0123456789'' ! (n mod 10)])"

declare format_nat.simps [simp del]

subsection \<open>Column operations of the data frame\<close>

text \<open>\<^verbatim>\<open>Series.cumsum()\<close>: the running sums of a column, in row order.\<close>

primrec cumsum_from :: "'a::monoid_add \<Rightarrow> 'a list \<Rightarrow> 'a list" where
  "cumsum_from acc [] = []"
| "cumsum_from acc (x # xs) = (acc + x) # cumsum_from (acc + x) xs"

definition cumsum :: "'a::monoid_add list \<Rightarrow> 'a list" where
  "cumsum xs = cumsum_from 0 xs"

subsection \<open>Responses of the REST API\<close>

text \<open>
  What the code reads of the response of a GET: the parsed JSON array
  (\<^verbatim>\<open>response.json()\<close>) and the link relations of the \<^verbatim>\<open>Link\<close> header
  (\<^verbatim>\<open>response.links\<close>, here the URL of each relation).
\<close>

record 'a response =
  body :: "'a list"
  links :: "string \<rightharpoonup> string"

subsection \<open>Dates and counts per day\<close>

text \<open>
  A parsed timestamp (\<^verbatim>\<open>pd.to_datetime\<close> of an ISO-8601 string): the calendar date
  (year, month, day) and the nanoseconds since midnight. \<^verbatim>\<open>.dt.normalize()\<close> sets the
  time of day to midnight.
\<close>

type_synonym calendar_date = "int \<times> nat \<times> nat"
type_synonym timestamp = "calendar_date \<times> nat"

definition dt_normalize :: "timestamp \<Rightarrow> timestamp" where
  "dt_normalize t = (fst t, 0)"

text \<open>
  \<^verbatim>\<open>df.groupby(key).size().reset_index(name='count')\<close>: one row per distinct key, in
  ascending order of the key, with the number of rows that carry the key.
\<close>

definition groupby_size :: "'a::linorder list \<Rightarrow> ('a \<times> nat) list" where
  "groupby_size ks = map (\<lambda>k. (k, count_list ks k)) (sort (remdups ks))"

record issue =
  number :: int
  state :: string
  created_at :: timestamp

subsection \<open>closed-issues\<close>

definition closed_issues_url :: "string \<Rightarrow> string option \<Rightarrow> string" where
  "closed_issues_url owner repo =
     ''https://api.github.com/repos/'' @ owner @ ''/'' @ format_opt repo @ ''/issues?state=closed''"

definition closed_issues ::
  "(string \<Rightarrow> issue response) \<Rightarrow> string \<Rightarrow> string option \<Rightarrow> string list \<times> (timestamp \<times> nat) list" where
  "closed_issues srv owner repo =
     (let url = closed_issues_url owner repo;
          json = body (srv url);
          df_created_at = map created_at json;
          df_created_at = map dt_normalize df_created_at;
          df = groupby_size df_created_at
      in ([url], df))"

subsection \<open>code-commits\<close>

text \<open>Of a commit the code reads \<^verbatim>\<open>json[i]['commit']['author']['date']\<close>.\<close>

record commit =
  sha :: string
  author_date :: timestamp

definition commits_url :: "string \<Rightarrow> string \<Rightarrow> nat \<Rightarrow> string" where
  "commits_url owner repo i =
     ''https://api.github.com/repos/'' @ owner @ ''/'' @ repo @ ''/commits?page='' @ format_nat i"

text \<open>
  The \<^verbatim>\<open>while True\<close> loop of lines 73 to 79, with the page number \<open>i\<close>, the requests
  issued so far and the records collected so far. The loop has no bound: against an
  API that never answers with an empty page it does not return, which is \<open>None\<close> here.
\<close>

partial_function (option) fetch_commit_pages ::
  "(string \<Rightarrow> commit response) \<Rightarrow> string \<Rightarrow> string \<Rightarrow> nat \<Rightarrow> string list \<Rightarrow> commit list
   \<Rightarrow> (string list \<times> commit list) option" where
  "fetch_commit_pages srv owner repo i reqs json =
     (let u = commits_url owner repo i;
          j = body (srv u)
      in if length j = 0 then Some (reqs @ [u], json)
         else fetch_commit_pages srv owner repo (i + 1) (reqs @ [u]) (json @ j))"

text \<open>
  With no commit at all, \<^verbatim>\<open>DataFrame.from_dict({}, orient='index')\<close> has no column and
  the assignment of one column name to it raises \<^verbatim>\<open>ValueError\<close>.
\<close>

definition code_commits ::
  "(string \<Rightarrow> commit response) \<Rightarrow> string \<Rightarrow> string
   \<Rightarrow> (string list \<times> (py_error + (timestamp \<times> nat) list)) option" where
  "code_commits srv owner repo =
     (case fetch_commit_pages srv owner repo 0 [] [] of
        None \<Rightarrow> None
      | Some (reqs, json) \<Rightarrow>
          if json = [] then Some (reqs, Inl ValueError)
          else (let df_created_at = map author_date json;
                    df_created_at = map dt_normalize df_created_at
                in Some (reqs, Inr (groupby_size df_created_at))))"

subsection \<open>contributors\<close>

record contributor =
  login :: string
  user_id :: int
  contributions :: int

definition contributors_url :: "string \<Rightarrow> string \<Rightarrow> string" where
  "contributors_url owner repo =
     ''https://api.github.com/repos/'' @ owner @ ''/'' @ repo @ ''/contributors''"

definition contributors ::
  "(string \<Rightarrow> contributor response) \<Rightarrow> string \<Rightarrow> string \<Rightarrow> string list \<times> (string \<times> int) list" where
  "contributors srv owner repo =
     (let url = contributors_url owner repo;
          json = body (srv url);
          df = map (\<lambda>c. (login c, contributions c)) json
      in ([url], df))"

subsection \<open>lines-of-code-changed\<close>





subsection \<open>open-issues\<close>

definition open_issues_url :: "string \<Rightarrow> string \<Rightarrow> string" where
  "open_issues_url owner repo =
     ''https://api.github.com/repos/'' @ owner @ ''/'' @ repo @ ''/issues?state=all''"

text \<open>
  The \<^verbatim>\<open>while True\<close> loop of lines 142 to 149, with the current URL, the requests issued
  so far and the issues collected so far. A server whose every response carries a
  \<^verbatim>\<open>next\<close> link keeps the loop running: \<open>None\<close>.
\<close>

partial_function (option) fetch_issue_pages ::
  "(string \<Rightarrow> issue response) \<Rightarrow> string \<Rightarrow> string list \<Rightarrow> issue list
   \<Rightarrow> (string list \<times> issue list) option" where
  "fetch_issue_pages srv url reqs issues =
     (let response = srv url;
          issues' = issues @ body response;
          reqs' = reqs @ [url]
      in case links response ''next'' of
           None \<Rightarrow> Some (reqs', issues')
         | Some next_url \<Rightarrow> fetch_issue_pages srv next_url reqs' issues')"

definition open_issues ::
  "(string \<Rightarrow> issue response) \<Rightarrow> string \<Rightarrow> string
   \<Rightarrow> (string list \<times> (timestamp \<times> nat) list) option" where
  "open_issues srv owner repo =
     (case fetch_issue_pages srv (open_issues_url owner repo) [] [] of
        None \<Rightarrow> None
      | Some (reqs, issues) \<Rightarrow>
          (let df_created_at = map created_at issues;
               df_created_at = map dt_normalize df_created_at
           in Some (reqs, groupby_size df_created_at)))"

subsection \<open>bus-factor\<close>

text \<open>
  The GraphQL query is a fixed text with three substitutions,
  \<^verbatim>\<open>% (repo, owner, cursor)\<close>; the last one lands in \<^verbatim>\<open>history(first: 100%s)\<close>. A request
  is the triple of the substituted strings. Of the response the code reads
  \<^verbatim>\<open>pageInfo.hasNextPage\<close> and, of every edge, \<^verbatim>\<open>cursor\<close> and \<^verbatim>\<open>node.author.email\<close>.
\<close>

record graphql_query =
  repository_name :: string
  repository_owner :: string
  history_args :: string

record edge =
  cursor :: string
  email :: string

record history =
  hasNextPage :: bool
  edges :: "edge list"

text \<open>\<^verbatim>\<open>", after: \"%s\"" % c\<close>\<close>

definition after_arg :: "string \<Rightarrow> string" where
  "after_arg c = '', after: '' @ [CHR 0x22] @ c @ [CHR 0x22]"

text \<open>
  The \<^verbatim>\<open>while hasNextPage\<close> loop of lines 192 to 228, entered with \<^verbatim>\<open>hasNextPage = True\<close>.
  \<^verbatim>\<open>commits[-1]\<close> is read on every page, the last one too, and raises \<^verbatim>\<open>IndexError\<close> on a
  page without edges.
\<close>

partial_function (option) fetch_history ::
  "(graphql_query \<Rightarrow> history) \<Rightarrow> string \<Rightarrow> string \<Rightarrow> string \<Rightarrow> graphql_query list \<Rightarrow> string list
   \<Rightarrow> (graphql_query list \<times> (py_error + string list)) option" where
  "fetch_history srv owner repo cur reqs commit_count =
     (let query = \<lparr>repository_name = repo, repository_owner = owner, history_args = cur\<rparr>;
          data = srv query;
          reqs' = reqs @ [query];
          commits = edges data;
          commit_count' = commit_count @ map email commits
      in if commits = [] then Some (reqs', Inl IndexError)
         else (let cur' = after_arg (cursor (last commits))
               in if hasNextPage data then fetch_history srv owner repo cur' reqs' commit_count'
                  else Some (reqs', Inr commit_count')))"

text \<open>
  \<^verbatim>\<open>df.groupby(['email']).email.count()\<close>: the number of commits of each distinct email, in
  the order of the emails.
\<close>

definition email_counts :: "string list \<Rightarrow> nat list" where
  "email_counts emails = map (count_list emails) (sort (remdups emails))"

text \<open>
  Line 235: every count divided by the sum of the counts, times 100. The floating-point
  numbers of the code are exact rationals here.
\<close>

definition email_shares :: "string list \<Rightarrow> rat list" where
  "email_shares emails =
     (let counts = map rat_of_nat (email_counts emails)
      in map (\<lambda>c. c / sum_list counts * 100) counts)"

text \<open>
  The two iterations of lines 237 to 249: count the cumulative sums up to and including the
  first one that reaches the threshold, all of them when none does.
\<close>

fun count_until :: "rat \<Rightarrow> nat \<Rightarrow> rat list \<Rightarrow> nat" where
  "count_until threshold i [] = i"
| "count_until threshold i (num # nums) =
     (if num \<ge> threshold then i + 1 else count_until threshold (i + 1) nums)"

text \<open>
  Lines 231 to 253, with the threshold already divided by 100. A data frame built from
  no row has no column \<^verbatim>\<open>email\<close>: \<^verbatim>\<open>df.email\<close> raises \<^verbatim>\<open>AttributeError\<close>.
\<close>

definition bus_factor_table :: "string list \<Rightarrow> rat \<Rightarrow> py_error + (nat \<times> nat)" where
  "bus_factor_table commit_count threshold =
     (if commit_count = [] then Inl AttributeError
      else (let df = email_shares commit_count;
                worst = count_until threshold 0 (cumsum (rev (sort df)));
                best = count_until threshold 0 (cumsum (sort df))
            in Inr (worst, best)))"

definition bus_factor ::
  "(graphql_query \<Rightarrow> history) \<Rightarrow> string \<Rightarrow> string \<Rightarrow> rat
   \<Rightarrow> (graphql_query list \<times> (py_error + (nat \<times> nat))) option" where
  "bus_factor srv owner repo threshold =
     (let threshold = threshold / 100
      in case fetch_history srv owner repo '''' [] [] of
           None \<Rightarrow> None
         | Some (reqs, Inl e) \<Rightarrow> Some (reqs, Inl e)
         | Some (reqs, Inr commit_count) \<Rightarrow> Some (reqs, bus_factor_table commit_count threshold))"

text \<open>
  The bus factor in the words of the specification: the least number \<open>k\<close> such that
  the \<open>k\<close> largest (worst case) or the \<open>k\<close> smallest (best case) shares, in percent, sum
  to at least the threshold, in percent.
\<close>

definition least_covering :: "rat list \<Rightarrow> rat \<Rightarrow> nat option" where
  "least_covering xs t = List.find (\<lambda>k. t \<le> sum_list (take k xs)) [0 ..< Suc (length xs)]"

definition spec_worst :: "string list \<Rightarrow> rat \<Rightarrow> nat option" where
  "spec_worst emails threshold = least_covering (rev (sort (email_shares emails))) threshold"

definition spec_best :: "string list \<Rightarrow> rat \<Rightarrow> nat option" where
  "spec_best emails threshold = least_covering (sort (email_shares emails)) threshold"

subsection \<open>contributors-gender\<close>

text \<open>
  A display name is a Python string: a list of code points. \<^verbatim>\<open>str.split()\<close> without
  argument splits at runs of the white space of \<^verbatim>\<open>str.isspace\<close> and returns no empty
  token.
\<close>

type_synonym unicode = "nat list"

definition isspace :: "nat \<Rightarrow> bool" where
  "isspace c \<longleftrightarrow>
     (0x09 \<le> c \<and> c \<le> 0x0D) \<or> (0x1C \<le> c \<and> c \<le> 0x20) \<or> c = 0x85 \<or> c = 0xA0 \<or> c = 0x1680
     \<or> (0x2000 \<le> c \<and> c \<le> 0x200A) \<or> c = 0x2028 \<or> c = 0x2029 \<or> c = 0x202F \<or> c = 0x205F
     \<or> c = 0x3000"

fun split_from :: "unicode \<Rightarrow> unicode \<Rightarrow> unicode list" where
  "split_from tok [] = (if tok = [] then [] else [tok])"
| "split_from tok (c # cs) =
     (if isspace c then (if tok = [] then split_from [] cs else tok # split_from [] cs)
      else split_from (tok @ [c]) cs)"

definition split :: "unicode \<Rightarrow> unicode list" where
  "split s = split_from [] s"

text \<open>Of a contributor (a \<^verbatim>\<open>NamedUser\<close> of the client library) the code reads \<^verbatim>\<open>name\<close>.\<close>

record named_user =
  user_login :: string
  name :: "unicode option"

text \<open>
  The loop of lines 260 to 263: \<^verbatim>\<open>names.loc[i]\<close> appends one row. \<^verbatim>\<open>split()[0]\<close> raises
  \<^verbatim>\<open>IndexError\<close> when the name has no token.
\<close>

fun collect_names :: "named_user list \<Rightarrow> unicode list \<Rightarrow> py_error + unicode list" where
  "collect_names [] names = Inr names"
| "collect_names (contributor # rest) names =
     (case name contributor of
        None \<Rightarrow> collect_names rest names
      | Some n \<Rightarrow>
          (case split n of
             [] \<Rightarrow> Inl IndexError
           | tok # _ \<Rightarrow> collect_names rest (names @ [tok])))"

text \<open>
  \<^verbatim>\<open>names.merge(table, how='inner', on=['name'])\<close>: every pair of a row of \<open>names\<close> and a
  row of the table with the same name, in the order of \<open>names\<close>.
\<close>

definition merge_inner :: "unicode list \<Rightarrow> (unicode \<times> 'g) list \<Rightarrow> (unicode \<times> 'g) list" where
  "merge_inner names table = concat (map (\<lambda>n. filter (\<lambda>row. fst row = n) table) names)"

text \<open>
  The reference table \<^verbatim>\<open>LocalCSV.name_gender\<close> lives in another module and is a
  parameter, as is the client library's list of the contributors of a repository.
  \<^verbatim>\<open>owner + "/" + repo\<close> raises \<^verbatim>\<open>TypeError\<close> for the default \<^verbatim>\<open>repo=None\<close>.
\<close>

definition contributors_gender ::
  "(string \<Rightarrow> named_user list) \<Rightarrow> (unicode \<times> 'g) list \<Rightarrow> string \<Rightarrow> string option
   \<Rightarrow> py_error + (unicode \<times> 'g) list" where
  "contributors_gender get_contributors name_gender owner repo =
     (case repo of
        None \<Rightarrow> Inl TypeError
      | Some r \<Rightarrow>
          (case collect_names (get_contributors (owner @ ''/'' @ r)) [] of
             Inl e \<Rightarrow> Inl e
           | Inr names \<Rightarrow> Inr (merge_inner names name_gender)))"

subsection \<open>code-reviews\<close>

text \<open>
  The names bound at module level: the imports and the class. The method reads the
  global names \<^verbatim>\<open>key\<close> (line 269) and \<^verbatim>\<open>np\<close> (line 289); reading a name that is bound
  nowhere raises \<^verbatim>\<open>NameError\<close>.
\<close>

definition module_globals :: "string list" where
  "module_globals =
     [''json'', ''re'', ''pd'', ''Github'', ''requests'', ''LocalCSV'', ''logger'', ''annotate'',
      ''GitHubAPI'']"

definition load_global :: "string \<Rightarrow> py_error + unit" where
  "load_global x = (if x \<in> set module_globals then Inr () else Inl NameError)"

fun format_int :: "int \<Rightarrow> string" where
  "format_int i = (if i < 0 then ''-'' @ format_nat (nat (- i)) else format_nat (nat i))"

definition pulls_url :: "string \<Rightarrow> string option \<Rightarrow> string" where
  "pulls_url owner repo =
     ''https://api.github.com/repos/'' @ owner @ ''/'' @ format_opt repo @ ''/pulls''"

definition reviews_url :: "string \<Rightarrow> string option \<Rightarrow> int \<Rightarrow> string" where
  "reviews_url owner repo pull =
     ''https://api.github.com/repos/'' @ owner @ ''/'' @ format_opt repo @ ''/pulls/''
       @ format_int pull @ ''/reviews''"

record review_row =
  pullNum :: int
  pull_state :: string
  createdAt :: timestamp
  num_reviews :: nat

text \<open>
  The loop of lines 285 to 289, read with both statements in its body (line 288 is
  indented to a level that matches neither the loop nor its body).
\<close>

fun count_reviews ::
  "(string \<Rightarrow> 'r response) \<Rightarrow> string \<Rightarrow> string option \<Rightarrow> int list \<Rightarrow> string list \<Rightarrow> nat list
   \<Rightarrow> string list \<times> (py_error + nat list)" where
  "count_reviews srv owner repo [] reqs countReviews = (reqs, Inr countReviews)"
| "count_reviews srv owner repo (pull # pullNums) reqs countReviews =
     (let url2 = reviews_url owner repo pull;
          j = body (srv url2);
          reqs' = reqs @ [url2]
      in case load_global ''np'' of
           Inl e \<Rightarrow> (reqs', Inl e)
         | Inr _ \<Rightarrow> count_reviews srv owner repo pullNums reqs' (countReviews @ [length j]))"

definition code_reviews ::
  "(string \<Rightarrow> issue response) \<Rightarrow> (string \<Rightarrow> 'r response) \<Rightarrow> string \<Rightarrow> string option
   \<Rightarrow> string list \<times> (py_error + review_row list)" where
  "code_reviews srv_pulls srv_reviews owner repo =
     (let url = pulls_url owner repo
      in case load_global ''key'' of
           Inl e \<Rightarrow> ([], Inl e)
         | Inr _ \<Rightarrow>
             (let json = body (srv_pulls url);
                  dicts = map (\<lambda>item. (number item, state item, created_at item)) json;
                  pullNums = map number json
              in case count_reviews srv_reviews owner repo pullNums [url] [] of
                   (reqs, Inl e) \<Rightarrow> (reqs, Inl e)
                 | (reqs, Inr countReviews) \<Rightarrow>
                     (reqs, Inr (map (\<lambda>((n, s, c), k).
                                   \<lparr>pullNum = n, pull_state = s, createdAt = c, num_reviews = k\<rparr>)
                                 (zip dicts countReviews)))))"

section \<open>Synthetic servers\<close>

text \<open>Two pages of one commit each; every other page is empty.\<close>

definition two_pages :: "string \<Rightarrow> commit response" where
  "two_pages u =
     (if u = commits_url ''o'' ''r'' 0
      then \<lparr>body = [\<lparr>sha = ''c1'', author_date = ((2024, 1, 1), 0)\<rparr>], links = Map.empty\<rparr>
      else if u = commits_url ''o'' ''r'' 1
      then \<lparr>body = [\<lparr>sha = ''c2'', author_date = ((2024, 1, 2), 0)\<rparr>], links = Map.empty\<rparr>
      else \<lparr>body = [], links = Map.empty\<rparr>)"

text \<open>
  Three pages of one issue each, chained by the \<^verbatim>\<open>next\<close> relation of the first two.
\<close>

definition three_issue_pages :: "string \<Rightarrow> issue response" where
  "three_issue_pages u =
     (if u = ''https://api.github.com/repos/o/r/issues?state=all''
      then \<lparr>body = [\<lparr>number = 1, state = ''open'', created_at = ((2024, 1, 1), 0)\<rparr>],
            links = [''next'' \<mapsto> ''https://api.github.com/repositories/7/issues?state=all&page=2'',
                     ''last'' \<mapsto> ''https://api.github.com/repositories/7/issues?state=all&page=3'']\<rparr>
      else if u = ''https://api.github.com/repositories/7/issues?state=all&page=2''
      then \<lparr>body = [\<lparr>number = 2, state = ''closed'', created_at = ((2024, 1, 1), 5)\<rparr>],
            links = [''next'' \<mapsto> ''https://api.github.com/repositories/7/issues?state=all&page=3'',
                     ''prev'' \<mapsto> ''https://api.github.com/repos/o/r/issues?state=all'']\<rparr>
      else \<lparr>body = [\<lparr>number = 3, state = ''open'', created_at = ((2024, 1, 2), 0)\<rparr>],
            links = [''prev'' \<mapsto> ''https://api.github.com/repositories/7/issues?state=all&page=2'']\<rparr>)"

text \<open>
  Two pages of commit history: the query without cursor is answered with two edges and
  \<^verbatim>\<open>hasNextPage = true\<close>, every other query with one edge and \<^verbatim>\<open>hasNextPage = false\<close>.
\<close>

definition two_history_pages :: "graphql_query \<Rightarrow> history" where
  "two_history_pages q =
     (if history_args q = ''''
      then \<lparr>hasNextPage = True,
            edges = [\<lparr>cursor = ''c1'', email = ''a''\<rparr>, \<lparr>cursor = ''c2'', email = ''b''\<rparr>]\<rparr>
      else \<lparr>hasNextPage = False, edges = [\<lparr>cursor = ''c3'', email = ''a''\<rparr>]\<rparr>)"



text \<open>
  Servers with a second page behind a \<^verbatim>\<open>next\<close> link, and servers with the first page only.
\<close>

definition paged_closed_issues :: "string \<Rightarrow> issue response" where
  "paged_closed_issues u =
     (if u = ''https://api.github.com/repos/o/r/issues?state=closed''
      then \<lparr>body = [\<lparr>number = 1, state = ''closed'', created_at = ((2024, 1, 1), 0)\<rparr>],
            links = [''next'' \<mapsto> ''https://api.github.com/repositories/7/issues?state=closed&page=2'']\<rparr>
      else \<lparr>body = [\<lparr>number = 2, state = ''closed'', created_at = ((2024, 1, 2), 0)\<rparr>],
            links = Map.empty\<rparr>)"

definition paged_contributors :: "string \<Rightarrow> contributor response" where
  "paged_contributors u =
     (if u = ''https://api.github.com/repos/o/r/contributors''
      then \<lparr>body = [\<lparr>login = ''ann'', user_id = 11, contributions = 40\<rparr>],
            links = [''next'' \<mapsto> ''https://api.github.com/repositories/7/contributors?page=2'']\<rparr>
      else \<lparr>body = [\<lparr>login = ''bob'', user_id = 12, contributions = 3\<rparr>],
            links = Map.empty\<rparr>)"

definition first_closed_issues_page :: "string \<Rightarrow> issue response" where
  "first_closed_issues_page u =
     \<lparr>body = [\<lparr>number = 1, state = ''closed'', created_at = ((2024, 1, 1), 0)\<rparr>], links = Map.empty\<rparr>"

definition first_contributors_page :: "string \<Rightarrow> contributor response" where
  "first_contributors_page u =
     \<lparr>body = [\<lparr>login = ''ann'', user_id = 11, contributions = 40\<rparr>], links = Map.empty\<rparr>"



text \<open>A commit history without a commit: one page, no edge.\<close>

definition empty_history :: "graphql_query \<Rightarrow> history" where
  "empty_history q = \<lparr>hasNextPage = False, edges = []\<rparr>"

text \<open>A commit history of five commits on one page, by the emails a, a, a, b, c.\<close>

definition five_commits :: "graphql_query \<Rightarrow> history" where
  "five_commits q =
     \<lparr>hasNextPage = False,
      edges = [\<lparr>cursor = ''c1'', email = ''a''\<rparr>, \<lparr>cursor = ''c2'', email = ''a''\<rparr>,
               \<lparr>cursor = ''c3'', email = ''a''\<rparr>, \<lparr>cursor = ''c4'', email = ''b''\<rparr>,
               \<lparr>cursor = ''c5'', email = ''c''\<rparr>]\<rparr>"

text \<open>
  Display names written as ASCII literals, three contributors of which one has no
  display name, a contributor whose display name is a single space, and a reference
  table with two names.
\<close>

definition unicode_of :: "string \<Rightarrow> unicode" where
  "unicode_of s = map of_char s"

definition three_contributors :: "string \<Rightarrow> named_user list" where
  "three_contributors full_name =
     [\<lparr>user_login = ''jdoe'', name = Some (unicode_of ''Jane Doe'')\<rparr>,
      \<lparr>user_login = ''ghost'', name = None\<rparr>,
      \<lparr>user_login = ''xyzzy'', name = Some (unicode_of ''Xyzzy Unknown'')\<rparr>]"

definition nameless_contributors :: "string \<Rightarrow> named_user list" where
  "nameless_contributors full_name =
     [\<lparr>user_login = ''blank'', name = Some (unicode_of '' '')\<rparr>]"

definition name_gender_sample :: "(unicode \<times> string) list" where
  "name_gender_sample = [(unicode_of ''Jane'', ''female''), (unicode_of ''John'', ''male'')]"

section \<open>Auxiliary facts\<close>






lemma fetch_commit_pages_run:
  "(\<forall>k<n. body (srv (commits_url owner repo (i + k))) \<noteq> []) \<Longrightarrow>
   body (srv (commits_url owner repo (i + n))) = [] \<Longrightarrow>
   fetch_commit_pages srv owner repo i reqs json =
     Some (reqs @ map (\<lambda>k. commits_url owner repo (i + k)) [0 ..< Suc n],
           json @ concat (map (\<lambda>k. body (srv (commits_url owner repo (i + k)))) [0 ..< n]))"
proof (induction n arbitrary: i reqs json)
  case 0
  then show ?case
    by (subst fetch_commit_pages.simps) (simp add: Let_def)
next
  case (Suc n)
  from Suc.prems(1) have first: "body (srv (commits_url owner repo i)) \<noteq> []"
    by (metis add.right_neutral zero_less_Suc)
  have rest: "\<forall>k<n. body (srv (commits_url owner repo (Suc i + k))) \<noteq> []"
    using Suc.prems(1) by (metis add_Suc_shift Suc_less_eq)
  have last: "body (srv (commits_url owner repo (Suc i + n))) = []"
    using Suc.prems(2) by simp
  have step: "fetch_commit_pages srv owner repo i reqs json =
      fetch_commit_pages srv owner repo (Suc i) (reqs @ [commits_url owner repo i])
        (json @ body (srv (commits_url owner repo i)))"
    using first by (subst fetch_commit_pages.simps) (simp add: Let_def)
  have l1: "map (\<lambda>k. commits_url owner repo (i + k)) [0 ..< Suc (Suc n)] =
      commits_url owner repo i # map (\<lambda>k. commits_url owner repo (Suc i + k)) [0 ..< Suc n]"
    by (subst map_upt_Suc) simp
  have l2: "map (\<lambda>k. body (srv (commits_url owner repo (i + k)))) [0 ..< Suc n] =
      body (srv (commits_url owner repo i)) # map (\<lambda>k. body (srv (commits_url owner repo (Suc i + k)))) [0 ..< n]"
    by (subst map_upt_Suc) simp
  show ?case
    unfolding step Suc.IH [OF rest last] l1 l2 by simp
qed

lemma fetch_issue_pages_last:
  "links (srv u) ''next'' = None \<Longrightarrow>
   fetch_issue_pages srv u reqs issues = Some (reqs @ [u], issues @ body (srv u))"
  by (subst fetch_issue_pages.simps) (simp add: Let_def)

lemma fetch_issue_pages_next:
  "links (srv u) ''next'' = Some v \<Longrightarrow>
   fetch_issue_pages srv u reqs issues = fetch_issue_pages srv v (reqs @ [u]) (issues @ body (srv u))"
  by (subst fetch_issue_pages.simps) (simp add: Let_def)

lemma fetch_history_next:
  "edges (srv \<lparr>repository_name = repo, repository_owner = owner, history_args = cur\<rparr>) \<noteq> [] \<Longrightarrow>
   hasNextPage (srv \<lparr>repository_name = repo, repository_owner = owner, history_args = cur\<rparr>) \<Longrightarrow>
   fetch_history srv owner repo cur reqs commit_count =
     fetch_history srv owner repo
       (after_arg (cursor (last (edges (srv \<lparr>repository_name = repo, repository_owner = owner, history_args = cur\<rparr>)))))
       (reqs @ [\<lparr>repository_name = repo, repository_owner = owner, history_args = cur\<rparr>])
       (commit_count @ map email (edges (srv \<lparr>repository_name = repo, repository_owner = owner, history_args = cur\<rparr>)))"
  by (subst fetch_history.simps) (simp add: Let_def)

lemma fetch_history_last:
  "\<not> hasNextPage (srv \<lparr>repository_name = repo, repository_owner = owner, history_args = cur\<rparr>) \<Longrightarrow>
   fetch_history srv owner repo cur reqs commit_count =
     Some (reqs @ [\<lparr>repository_name = repo, repository_owner = owner, history_args = cur\<rparr>],
           if edges (srv \<lparr>repository_name = repo, repository_owner = owner, history_args = cur\<rparr>) = []
           then Inl IndexError
           else Inr (commit_count @ map email (edges (srv \<lparr>repository_name = repo, repository_owner = owner, history_args = cur\<rparr>))))"
  by (subst fetch_history.simps) (simp add: Let_def)

lemma fetch_history_empty:
  "edges (srv \<lparr>repository_name = repo, repository_owner = owner, history_args = cur\<rparr>) = [] \<Longrightarrow>
   fetch_history srv owner repo cur reqs commit_count =
     Some (reqs @ [\<lparr>repository_name = repo, repository_owner = owner, history_args = cur\<rparr>], Inl IndexError)"
  by (subst fetch_history.simps) (simp add: Let_def)

lemma fst_bus_factor:
  "fetch_history srv owner repo [] [] [] = Some (reqs, r) \<Longrightarrow>
   map_option fst (bus_factor srv owner repo threshold) = Some reqs"
  by (cases r) (simp_all add: bus_factor_def)



lemma five_commits_table:
  "bus_factor_table [''a'', ''a'', ''a'', ''b'', ''c''] (50 / 100) = Inr (1, 1)"
  by code_simp

lemma five_commits_spec:
  "spec_worst [''a'', ''a'', ''a'', ''b'', ''c''] 50 = Some 1"
  "spec_best [''a'', ''a'', ''a'', ''b'', ''c''] 50 = Some 3"
  by code_simp+

lemma collect_names_eq:
  "collect_names cs names =
     (if \<forall>c \<in> set cs. \<forall>n. name c = Some n \<longrightarrow> split n \<noteq> []
      then Inr (names @ concat (map (\<lambda>c. case name c of None \<Rightarrow> [] | Some n \<Rightarrow> take 1 (split n)) cs))
      else Inl IndexError)"
proof (induction cs arbitrary: names)
  case Nil
  then show ?case by simp
next
  case (Cons c cs)
  show ?case
  proof (cases "name c")
    case None
    then show ?thesis by (simp add: Cons.IH)
  next
    case (Some n)
    show ?thesis
    proof (cases "split n")
      case Nil
      with Some show ?thesis by auto
    next
      case (Cons tok toks)
      with Some show ?thesis by (simp add: Cons.IH)
    qed
  qed
qed

lemma collect_names_filter:
  "collect_names (filter (\<lambda>c. name c \<noteq> None) cs) names = collect_names cs names"
proof (induction cs arbitrary: names)
  case Nil
  then show ?case by simp
next
  case (Cons c cs)
  then show ?case by (cases "name c") (simp_all split: list.splits)
qed

lemma split_jane: "split (unicode_of ''Jane Doe'') = [unicode_of ''Jane'', unicode_of ''Doe'']"
  by (simp add: unicode_of_def split_def isspace_def)

lemma split_xyzzy: "split (unicode_of ''Xyzzy Unknown'') = [unicode_of ''Xyzzy'', unicode_of ''Unknown'']"
  by (simp add: unicode_of_def split_def isspace_def)

lemma split_blank: "split (unicode_of '' '') = []" "split [] = []"
  by (simp_all add: unicode_of_def split_def isspace_def)

subsection \<open>The iterations of bus-factor and the least covering number\<close>

lemma count_until_cumsum_from:
  "acc < t \<Longrightarrow> t \<le> acc + sum_list xs \<Longrightarrow>
   \<exists>r. count_until t i (cumsum_from acc xs) = i + r \<and> r \<le> length xs
       \<and> t \<le> acc + sum_list (take r xs) \<and> (\<forall>k<r. acc + sum_list (take k xs) < t)"
proof (induction xs arbitrary: acc i)
  case Nil
  then show ?case by simp
next
  case (Cons x xs)
  show ?case
  proof (cases "t \<le> acc + x")
    case True
    have "count_until t i (cumsum_from acc (x # xs)) = i + 1 \<and> 1 \<le> length (x # xs)
       \<and> t \<le> acc + sum_list (take 1 (x # xs)) \<and> (\<forall>k<1. acc + sum_list (take k (x # xs)) < t)"
      using True Cons.prems(1) by simp
    then show ?thesis by blast
  next
    case False
    then have lt: "acc + x < t" by simp
    have le: "t \<le> (acc + x) + sum_list xs"
      using Cons.prems(2) by (simp add: add.assoc)
    from Cons.IH [OF lt le, of "i + 1"] obtain r
      where r: "count_until t (i + 1) (cumsum_from (acc + x) xs) = i + 1 + r" "r \<le> length xs"
        "t \<le> acc + x + sum_list (take r xs)" "\<forall>k<r. acc + x + sum_list (take k xs) < t"
      by blast
    have small: "acc + sum_list (take k (x # xs)) < t" if "k < Suc r" for k
    proof (cases k)
      case 0
      with Cons.prems(1) show ?thesis by simp
    next
      case (Suc j)
      with that r(4) show ?thesis by (simp add: add.assoc)
    qed
    have "count_until t i (cumsum_from acc (x # xs)) = i + Suc r \<and> Suc r \<le> length (x # xs)
       \<and> t \<le> acc + sum_list (take (Suc r) (x # xs)) \<and> (\<forall>k<Suc r. acc + sum_list (take k (x # xs)) < t)"
      using False r(1,2,3) small by (simp add: add.assoc)
    then show ?thesis by blast
  qed
qed

lemma find_upt_least:
  "P r \<Longrightarrow> r < n \<Longrightarrow> \<forall>k<r. \<not> P k \<Longrightarrow> List.find P [0 ..< n] = Some r"
  unfolding find_Some_iff by (rule exI [of _ r]) simp

lemma count_until_least_covering:
  assumes "0 < t" and "t \<le> sum_list xs"
  shows "least_covering xs t = Some (count_until t 0 (cumsum xs))"
proof -
  from count_until_cumsum_from [of 0 t xs 0] assms obtain r
    where r: "count_until t 0 (cumsum xs) = r" "r \<le> length xs"
      "t \<le> sum_list (take r xs)" "\<forall>k<r. sum_list (take k xs) < t"
    by (auto simp add: cumsum_def)
  have "List.find (\<lambda>k. t \<le> sum_list (take k xs)) [0 ..< Suc (length xs)] = Some r"
    by (rule find_upt_least) (use r in \<open>auto simp add: not_le\<close>)
  then show ?thesis by (simp add: least_covering_def r(1))
qed

lemma sum_list_email_counts: "emails \<noteq> [] \<Longrightarrow> 0 < sum_list (email_counts emails)"
proof -
  assume "emails \<noteq> []"
  then obtain e where e: "e \<in> set emails" by (cases emails) auto
  then have "count_list emails e \<in> set (email_counts emails)"
    by (simp add: email_counts_def)
  then have "count_list emails e \<le> sum_list (email_counts emails)"
    by (simp add: member_le_sum_list)
  moreover have "0 < count_list emails e"
    using e count_list_0_iff [of emails e] by auto
  ultimately show ?thesis by simp
qed

lemma sum_list_scaled: "sum_list (map (\<lambda>c. c / s * 100) cs) = sum_list cs / s * (100::rat)"
  by (induction cs) (simp_all add: add_divide_distrib distrib_right)

lemma sum_list_rat_of_nat: "sum_list (map rat_of_nat ns) = rat_of_nat (sum_list ns)"
  by (induction ns) simp_all

lemma sum_list_email_shares: "emails \<noteq> [] \<Longrightarrow> sum_list (email_shares emails) = 100"
proof -
  assume "emails \<noteq> []"
  define cs where "cs = map rat_of_nat (email_counts emails)"
  from \<open>emails \<noteq> []\<close> have "0 < sum_list (email_counts emails)"
    by (rule sum_list_email_counts)
  then have "sum_list (email_counts emails) \<noteq> 0"
    by (rule gr_implies_not0)
  then have "rat_of_nat (sum_list (email_counts emails)) \<noteq> 0"
    by simp
  then have nz: "sum_list cs \<noteq> 0"
    unfolding cs_def sum_list_rat_of_nat .
  have "email_shares emails = map (\<lambda>c. c / sum_list cs * 100) cs"
    by (simp only: email_shares_def Let_def cs_def)
  then have "sum_list (email_shares emails) = sum_list cs / sum_list cs * 100"
    by (simp only: sum_list_scaled)
  with nz show ?thesis by simp
qed

lemma sum_list_insort: "sum_list (insort x xs) = x + sum_list (xs :: rat list)"
  by (induction xs) simp_all

lemma sum_list_sort: "sum_list (sort xs) = sum_list (xs :: rat list)"
  by (induction xs) (simp_all add: sum_list_insort)

text \<open>
  With a threshold in the unit of the shares (percent, above 0 and at most 100) the
  table of lines 231 to 253 is the bus factor in the words of the specification.
\<close>

lemma bus_factor_table_percent:
  assumes "emails \<noteq> []" and "0 < t" and "t \<le> 100"
  shows "\<exists>worst best. bus_factor_table emails t = Inr (worst, best)
           \<and> spec_worst emails t = Some worst \<and> spec_best emails t = Some best"
proof -
  have s: "sum_list (sort (email_shares emails)) = 100"
    using assms(1) by (simp add: sum_list_sort sum_list_email_shares)
  then have r: "sum_list (rev (sort (email_shares emails))) = 100"
    by simp
  show ?thesis
    using assms count_until_least_covering [of t "sort (email_shares emails)"]
      count_until_least_covering [of t "rev (sort (email_shares emails))"] s r
    by (simp add: bus_factor_table_def spec_worst_def spec_best_def Let_def)
qed

subsection \<open>The rows of a count per key\<close>

lemma groupby_size_rows:
  "distinct (map fst (groupby_size ks))"
  "sorted (map fst (groupby_size ks))"
  "set (groupby_size ks) = (\<lambda>k. (k, count_list ks k)) ` set ks"
  by (simp_all add: groupby_size_def comp_def)


section \<open>The claims\<close>

subsection \<open>C1: the bus factor\<close>

text \<open>
  C1 at the emails \<open>a, a, a, b, c\<close> and the threshold 50. The shares are 60, 20 and 20
  percent. In the words of the specification the worst case is 1 and the best case 3.
  \<^verbatim>\<open>bus_factor\<close> returns worst 1 and best 1: line 191 turns the threshold into the
  fraction 0.5, line 235 turns the shares into percentages, and the smallest share, 20,
  already reaches 0.5.
\<close>

theorem bus_factor_five_commits:
  "bus_factor five_commits ''o'' ''r'' 50 =
     Some ([\<lparr>repository_name = ''r'', repository_owner = ''o'', history_args = ''''\<rparr>], Inr (1, 1))
   \<and> spec_worst [''a'', ''a'', ''a'', ''b'', ''c''] 50 = Some 1
   \<and> spec_best [''a'', ''a'', ''a'', ''b'', ''c''] 50 = Some 3"
proof -
  have "\<not> hasNextPage (five_commits \<lparr>repository_name = ''r'', repository_owner = ''o'', history_args = ''''\<rparr>)"
    by (simp add: five_commits_def)
  from fetch_history_last [of five_commits "''r''" "''o''" "''''" "[]" "[]", OF this]
  have "fetch_history five_commits ''o'' ''r'' '''' [] [] =
      Some ([\<lparr>repository_name = ''r'', repository_owner = ''o'', history_args = ''''\<rparr>],
            Inr [''a'', ''a'', ''a'', ''b'', ''c''])"
    by (simp add: five_commits_def)
  then have "bus_factor five_commits ''o'' ''r'' 50 =
     Some ([\<lparr>repository_name = ''r'', repository_owner = ''o'', history_args = ''''\<rparr>],
           bus_factor_table [''a'', ''a'', ''a'', ''b'', ''c''] (50 / 100))"
    by (simp add: bus_factor_def)
  with five_commits_table five_commits_spec show ?thesis by simp
qed

subsection \<open>C2: lines-of-code-changed\<close>




subsection \<open>C3: bus-factor on an empty commit history\<close>

text \<open>
  C3, as the code has it. When the first page of the commit history has no edge,
  \<^verbatim>\<open>bus_factor\<close> issues one request and fails with the \<^verbatim>\<open>IndexError\<close> of \<^verbatim>\<open>commits[-1]\<close>
  (line 228), a lookup fault; the division of line 235 is not reached.
\<close>

theorem bus_factor_empty_history:
  assumes "edges (srv \<lparr>repository_name = repo, repository_owner = owner, history_args = ''''\<rparr>) = []"
  shows "bus_factor srv owner repo threshold =
           Some ([\<lparr>repository_name = repo, repository_owner = owner, history_args = ''''\<rparr>],
                 Inl IndexError)
         \<and> lookup_or_arith_fault IndexError"
  using fetch_history_empty [of srv repo owner "''''" "[]" "[]", OF assms]
  by (simp add: bus_factor_def)

text \<open>The history without a commit.\<close>

theorem bus_factor_empty_history_witness:
  "edges (empty_history \<lparr>repository_name = ''r'', repository_owner = ''o'', history_args = ''''\<rparr>) = []
   \<and> bus_factor empty_history ''o'' ''r'' 50 =
       Some ([\<lparr>repository_name = ''r'', repository_owner = ''o'', history_args = ''''\<rparr>],
             Inl IndexError)"
proof -
  have h: "edges (empty_history \<lparr>repository_name = ''r'', repository_owner = ''o'', history_args = ''''\<rparr>) = []"
    by (simp add: empty_history_def)
  from bus_factor_empty_history [of empty_history "''r''" "''o''" 50, OF h] h show ?thesis by blast
qed

text \<open>
  C3 as stated fails: on the history without a commit the error is the \<^verbatim>\<open>IndexError\<close> of
  an unguarded lookup, not an explicit insufficient-data error.
\<close>

theorem bus_factor_empty_history_counterexample:
  "map_option snd (bus_factor empty_history ''o'' ''r'' 50) = Some (Inl IndexError)
   \<and> lookup_or_arith_fault IndexError"
proof -
  have "edges (empty_history \<lparr>repository_name = ''r'', repository_owner = ''o'', history_args = ''''\<rparr>) = []"
    by (simp add: empty_history_def)
  from fetch_history_empty [of empty_history "''r''" "''o''" "''''" "[]" "[]", OF this]
  show ?thesis
    by (simp add: bus_factor_def)
qed

subsection \<open>C4: the offset-paginated fetcher of code-commits\<close>

text \<open>
  C4. Let the server answer the requests for the pages \<open>0, \<dots>, N - 1\<close> with \<open>N - 1\<close>
  non-empty pages followed by an empty one. Then the loop of \<^verbatim>\<open>code_commits\<close>, started as
  the code starts it, returns: it has requested the pages \<open>0, 1, \<dots>, N - 1\<close> in this order
  and no other, \<open>N\<close> requests in all, and has collected exactly the concatenation of the
  \<open>N - 1\<close> non-empty pages.
\<close>

theorem code_commits_offset_pagination:
  assumes nonempty: "\<forall>p \<in> set pages. p \<noteq> []"
    and served: "\<forall>k \<le> length pages. body (srv (commits_url owner repo k)) = (pages @ [[]]) ! k"
  shows "fetch_commit_pages srv owner repo 0 [] [] =
           Some (map (commits_url owner repo) [0 ..< Suc (length pages)], concat pages)
         \<and> map_option fst (code_commits srv owner repo) =
             Some (map (commits_url owner repo) [0 ..< Suc (length pages)])
         \<and> length (map (commits_url owner repo) [0 ..< Suc (length pages)]) = Suc (length pages)"
proof -
  have page: "body (srv (commits_url owner repo k)) = pages ! k" if "k < length pages" for k
    using served that by (simp add: nth_append)
  have a: "\<forall>k<length pages. body (srv (commits_url owner repo (0 + k))) \<noteq> []"
    using nonempty page by simp
  have b: "body (srv (commits_url owner repo (0 + length pages))) = []"
    using served by (simp add: nth_append)
  have "map (\<lambda>k. body (srv (commits_url owner repo (0 + k)))) [0 ..< length pages] =
      map (\<lambda>k. pages ! k) [0 ..< length pages]"
    using page by simp
  then have c: "map (\<lambda>k. body (srv (commits_url owner repo (0 + k)))) [0 ..< length pages] = pages"
    by (simp only: map_nth)
  have f: "fetch_commit_pages srv owner repo 0 [] [] =
     Some (map (commits_url owner repo) [0 ..< Suc (length pages)], concat pages)"
    unfolding fetch_commit_pages_run [OF a b] c by simp
  have "map_option fst (code_commits srv owner repo) =
      Some (map (commits_url owner repo) [0 ..< Suc (length pages)])"
    unfolding code_commits_def f by (simp add: Let_def)
  with f show ?thesis by simp
qed

text \<open>Two non-empty pages and an empty one: three requests.\<close>

theorem code_commits_offset_pagination_witness:
  "fetch_commit_pages two_pages ''o'' ''r'' 0 [] [] =
       Some ([''https://api.github.com/repos/o/r/commits?page=0'',
              ''https://api.github.com/repos/o/r/commits?page=1'',
              ''https://api.github.com/repos/o/r/commits?page=2''],
             [\<lparr>sha = ''c1'', author_date = ((2024, 1, 1), 0)\<rparr>,
              \<lparr>sha = ''c2'', author_date = ((2024, 1, 2), 0)\<rparr>])"
proof -
  let ?pages = "[[\<lparr>sha = ''c1'', author_date = ((2024, 1, 1), 0)\<rparr>],
                 [\<lparr>sha = ''c2'', author_date = ((2024, 1, 2), 0)\<rparr>]]"
  have h1: "\<forall>p \<in> set ?pages. p \<noteq> []"
    by simp
  have "\<forall>k < Suc (Suc (Suc 0)). body (two_pages (commits_url ''o'' ''r'' k)) = (?pages @ [[]]) ! k"
    unfolding All_less_Suc by (simp add: two_pages_def commits_url_def format_nat.simps)
  then have h2: "\<forall>k \<le> length ?pages. body (two_pages (commits_url ''o'' ''r'' k)) = (?pages @ [[]]) ! k"
    by (simp add: less_Suc_eq_le)
  have r: "map (commits_url ''o'' ''r'') [0 ..< Suc (length ?pages)] =
      [''https://api.github.com/repos/o/r/commits?page=0'',
       ''https://api.github.com/repos/o/r/commits?page=1'',
       ''https://api.github.com/repos/o/r/commits?page=2'']"
    by (simp add: upt_rec commits_url_def format_nat.simps)
  from code_commits_offset_pagination [OF h1 h2]
  have "fetch_commit_pages two_pages ''o'' ''r'' 0 [] [] =
     Some (map (commits_url ''o'' ''r'') [0 ..< Suc (length ?pages)], concat ?pages)"
    by (rule conjunct1)
  then have "fetch_commit_pages two_pages ''o'' ''r'' 0 [] [] =
       Some ([''https://api.github.com/repos/o/r/commits?page=0'',
              ''https://api.github.com/repos/o/r/commits?page=1'',
              ''https://api.github.com/repos/o/r/commits?page=2''],
             [\<lparr>sha = ''c1'', author_date = ((2024, 1, 1), 0)\<rparr>,
              \<lparr>sha = ''c2'', author_date = ((2024, 1, 2), 0)\<rparr>])"
    unfolding r by simp
  then show ?thesis .
qed

subsection \<open>C5: the cursor-paginated fetcher of bus-factor\<close>

text \<open>
  C5. Let the answer to the first query (no cursor argument) have \<^verbatim>\<open>hasNextPage = true\<close>
  and at least one edge, \<open>c\<close> being the cursor of its last edge, and let the answer to
  the query with the argument \<^verbatim>\<open>, after: "c"\<close> have \<^verbatim>\<open>hasNextPage = false\<close>. Then
  \<^verbatim>\<open>bus_factor\<close> returns after exactly two requests: the query without cursor and the
  same query with \<^verbatim>\<open>, after: "c"\<close>.
\<close>

theorem bus_factor_two_pages:
  assumes more: "hasNextPage (srv \<lparr>repository_name = repo, repository_owner = owner, history_args = ''''\<rparr>)"
    and cursors: "edges (srv \<lparr>repository_name = repo, repository_owner = owner, history_args = ''''\<rparr>) \<noteq> []"
    and c: "c = cursor (last (edges (srv \<lparr>repository_name = repo, repository_owner = owner, history_args = ''''\<rparr>)))"
    and final: "\<not> hasNextPage (srv \<lparr>repository_name = repo, repository_owner = owner,
                                   history_args = '', after: '' @ [CHR 0x22] @ c @ [CHR 0x22]\<rparr>)"
  shows "map_option fst (bus_factor srv owner repo threshold) =
           Some [\<lparr>repository_name = repo, repository_owner = owner, history_args = ''''\<rparr>,
                 \<lparr>repository_name = repo, repository_owner = owner,
                  history_args = '', after: '' @ [CHR 0x22] @ c @ [CHR 0x22]\<rparr>]"
proof -
  have d: "\<not> hasNextPage (srv \<lparr>repository_name = repo, repository_owner = owner,
      history_args = after_arg (cursor (last (edges (srv \<lparr>repository_name = repo, repository_owner = owner, history_args = ''''\<rparr>))))\<rparr>)"
    using final by (simp add: after_arg_def c)
  have "\<exists>r. fetch_history srv owner repo [] [] [] =
      Some ([\<lparr>repository_name = repo, repository_owner = owner, history_args = ''''\<rparr>,
             \<lparr>repository_name = repo, repository_owner = owner,
               history_args = after_arg c\<rparr>], r)"
    unfolding fetch_history_next [of srv repo owner, OF cursors more] fetch_history_last [of srv repo owner, OF d] c by simp
  then obtain r where "fetch_history srv owner repo [] [] [] =
      Some ([\<lparr>repository_name = repo, repository_owner = owner, history_args = ''''\<rparr>,
             \<lparr>repository_name = repo, repository_owner = owner,
               history_args = after_arg c\<rparr>], r)" ..
  from fst_bus_factor [OF this] show ?thesis
    by (simp add: after_arg_def)
qed

text \<open>The two synthetic pages: the second query carries the cursor \<open>c2\<close>.\<close>

theorem bus_factor_two_pages_witness:
  "hasNextPage (two_history_pages \<lparr>repository_name = ''r'', repository_owner = ''o'', history_args = ''''\<rparr>)
   \<and> map_option fst (bus_factor two_history_pages ''o'' ''r'' 50) =
           Some [\<lparr>repository_name = ''r'', repository_owner = ''o'', history_args = ''''\<rparr>,
                 \<lparr>repository_name = ''r'', repository_owner = ''o'',
                  history_args = '', after: '' @ [CHR 0x22] @ ''c2'' @ [CHR 0x22]\<rparr>]"
proof -
  have h1: "hasNextPage (two_history_pages \<lparr>repository_name = ''r'', repository_owner = ''o'', history_args = ''''\<rparr>)"
    by (simp add: two_history_pages_def)
  have h2: "edges (two_history_pages \<lparr>repository_name = ''r'', repository_owner = ''o'', history_args = ''''\<rparr>) \<noteq> []"
    by (simp add: two_history_pages_def)
  have h3: "''c2'' = cursor (last (edges (two_history_pages \<lparr>repository_name = ''r'', repository_owner = ''o'', history_args = ''''\<rparr>)))"
    by (simp add: two_history_pages_def)
  have h4: "\<not> hasNextPage (two_history_pages \<lparr>repository_name = ''r'', repository_owner = ''o'',
                                   history_args = '', after: '' @ [CHR 0x22] @ ''c2'' @ [CHR 0x22]\<rparr>)"
    by (simp add: two_history_pages_def)
  from bus_factor_two_pages [OF h1 h2 h3 h4, of 50] h1 show ?thesis by blast
qed

subsection \<open>C6: the link-header fetcher of open-issues\<close>

text \<open>
  C6. Let the response to the initial URL carry a \<^verbatim>\<open>next\<close> link to \<open>u2\<close>, the response to
  \<open>u2\<close> a \<^verbatim>\<open>next\<close> link to \<open>u3\<close>, and the response to \<open>u3\<close> none. Then \<^verbatim>\<open>open_issues\<close>
  issues exactly the three requests to the initial URL, \<open>u2\<close> and \<open>u3\<close>, in this order,
  and counts the concatenation of the three bodies.
\<close>

theorem open_issues_three_pages:
  assumes first: "links (srv (open_issues_url owner repo)) ''next'' = Some u2"
    and second: "links (srv u2) ''next'' = Some u3"
    and third: "links (srv u3) ''next'' = None"
  shows "fetch_issue_pages srv (open_issues_url owner repo) [] [] =
           Some ([open_issues_url owner repo, u2, u3],
                 body (srv (open_issues_url owner repo)) @ body (srv u2) @ body (srv u3))
         \<and> open_issues srv owner repo =
             Some ([open_issues_url owner repo, u2, u3],
                   groupby_size (map dt_normalize (map created_at
                     (body (srv (open_issues_url owner repo)) @ body (srv u2) @ body (srv u3)))))"
proof -
  have f: "fetch_issue_pages srv (open_issues_url owner repo) [] [] =
           Some ([open_issues_url owner repo, u2, u3],
                 body (srv (open_issues_url owner repo)) @ body (srv u2) @ body (srv u3))"
    unfolding fetch_issue_pages_next [of srv "open_issues_url owner repo", OF first]
      fetch_issue_pages_next [of srv u2, OF second] fetch_issue_pages_last [of srv u3, OF third]
    by simp
  show ?thesis
    unfolding open_issues_def f by (simp add: Let_def)
qed

text \<open>The chain of three synthetic pages.\<close>

theorem open_issues_three_pages_witness:
  "links (three_issue_pages (open_issues_url ''o'' ''r'')) ''next''
     = Some ''https://api.github.com/repositories/7/issues?state=all&page=2''
   \<and> fetch_issue_pages three_issue_pages (open_issues_url ''o'' ''r'') [] [] =
       Some ([''https://api.github.com/repos/o/r/issues?state=all'',
              ''https://api.github.com/repositories/7/issues?state=all&page=2'',
              ''https://api.github.com/repositories/7/issues?state=all&page=3''],
             [\<lparr>number = 1, state = ''open'', created_at = ((2024, 1, 1), 0)\<rparr>,
              \<lparr>number = 2, state = ''closed'', created_at = ((2024, 1, 1), 5)\<rparr>,
              \<lparr>number = 3, state = ''open'', created_at = ((2024, 1, 2), 0)\<rparr>])"
proof -
  have h1: "links (three_issue_pages (open_issues_url ''o'' ''r'')) ''next''
      = Some ''https://api.github.com/repositories/7/issues?state=all&page=2''"
    by (simp add: three_issue_pages_def open_issues_url_def)
  have h2: "links (three_issue_pages ''https://api.github.com/repositories/7/issues?state=all&page=2'') ''next''
      = Some ''https://api.github.com/repositories/7/issues?state=all&page=3''"
    by (simp add: three_issue_pages_def)
  have h3: "links (three_issue_pages ''https://api.github.com/repositories/7/issues?state=all&page=3'') ''next''
      = None"
    by (simp add: three_issue_pages_def)
  from open_issues_three_pages [OF h1 h2 h3]
  have "fetch_issue_pages three_issue_pages (open_issues_url ''o'' ''r'') [] [] =
           Some ([open_issues_url ''o'' ''r'',
                  ''https://api.github.com/repositories/7/issues?state=all&page=2'',
                  ''https://api.github.com/repositories/7/issues?state=all&page=3''],
                 body (three_issue_pages (open_issues_url ''o'' ''r''))
                 @ body (three_issue_pages ''https://api.github.com/repositories/7/issues?state=all&page=2'')
                 @ body (three_issue_pages ''https://api.github.com/repositories/7/issues?state=all&page=3''))"
    by (rule conjunct1)
  moreover have "open_issues_url ''o'' ''r'' = ''https://api.github.com/repos/o/r/issues?state=all''"
    by (simp add: open_issues_url_def)
  moreover have "body (three_issue_pages ''https://api.github.com/repos/o/r/issues?state=all'')
                 @ body (three_issue_pages ''https://api.github.com/repositories/7/issues?state=all&page=2'')
                 @ body (three_issue_pages ''https://api.github.com/repositories/7/issues?state=all&page=3'')
     = [\<lparr>number = 1, state = ''open'', created_at = ((2024, 1, 1), 0)\<rparr>,
              \<lparr>number = 2, state = ''closed'', created_at = ((2024, 1, 1), 5)\<rparr>,
              \<lparr>number = 3, state = ''open'', created_at = ((2024, 1, 2), 0)\<rparr>]"
    by (simp add: three_issue_pages_def)
  ultimately show ?thesis using h1 by simp
qed

subsection \<open>C7: events of one calendar day\<close>



subsection \<open>C8: code-reviews\<close>

text \<open>
  C8 on the code. \<^verbatim>\<open>code_reviews\<close> fails on every input before its first request: the
  name \<^verbatim>\<open>key\<close> of line 269 is bound nowhere. No review list is fetched and no
  \<^verbatim>\<open>num_reviews\<close> is recorded.
\<close>

theorem code_reviews_NameError:
  "code_reviews srv_pulls srv_reviews owner repo = ([], Inl NameError)"
  by (simp add: code_reviews_def load_global_def module_globals_def)

subsection \<open>C9: the single-shot fetchers\<close>

text \<open>
  C9. \<^verbatim>\<open>closed_issues\<close> and \<^verbatim>\<open>contributors\<close> each issue exactly one GET, to their fixed
  URL, and build their table from the body of that one response: the per-day counts of
  the column \<^verbatim>\<open>created_at\<close>, respectively the columns \<^verbatim>\<open>login\<close> and \<^verbatim>\<open>contributions\<close>.
  There is no pagination: against any server that answers this URL with the same body,
  whatever its link relations and its further pages are, the result is the same, so what
  lies beyond the first page is dropped without notice.
\<close>

theorem single_shot_fetchers:
  "fst (closed_issues srv owner repo_opt) = [closed_issues_url owner repo_opt]
   \<and> snd (closed_issues srv owner repo_opt) =
       groupby_size (map dt_normalize (map created_at (body (srv (closed_issues_url owner repo_opt)))))
   \<and> (body (srv' (closed_issues_url owner repo_opt)) = body (srv (closed_issues_url owner repo_opt))
        \<longrightarrow> closed_issues srv' owner repo_opt = closed_issues srv owner repo_opt)
   \<and> fst (contributors csrv owner repo) = [contributors_url owner repo]
   \<and> snd (contributors csrv owner repo) =
       map (\<lambda>c. (login c, contributions c)) (body (csrv (contributors_url owner repo)))
   \<and> (body (csrv' (contributors_url owner repo)) = body (csrv (contributors_url owner repo))
        \<longrightarrow> contributors csrv' owner repo = contributors csrv owner repo)"
  by (simp add: closed_issues_def contributors_def Let_def)

text \<open>
  A server with a second page behind a \<^verbatim>\<open>next\<close> link gives what the server with the
  first page alone gives: one request and the rows of the first page.
\<close>

theorem single_shot_fetchers_witness:
  "body (first_closed_issues_page (closed_issues_url ''o'' (Some ''r'')))
     = body (paged_closed_issues (closed_issues_url ''o'' (Some ''r'')))
   \<and> body (first_contributors_page (contributors_url ''o'' ''r''))
     = body (paged_contributors (contributors_url ''o'' ''r''))
   \<and> closed_issues paged_closed_issues ''o'' (Some ''r'') =
       ([''https://api.github.com/repos/o/r/issues?state=closed''], [(((2024, 1, 1), 0), 1)])
   \<and> contributors paged_contributors ''o'' ''r'' =
       ([''https://api.github.com/repos/o/r/contributors''], [(''ann'', 40)])"
proof -
  have h1: "body (first_closed_issues_page (closed_issues_url ''o'' (Some ''r'')))
     = body (paged_closed_issues (closed_issues_url ''o'' (Some ''r'')))"
    by (simp add: first_closed_issues_page_def paged_closed_issues_def closed_issues_url_def)
  have h2: "body (first_contributors_page (contributors_url ''o'' ''r''))
     = body (paged_contributors (contributors_url ''o'' ''r''))"
    by (simp add: first_contributors_page_def paged_contributors_def contributors_url_def)
  note t = single_shot_fetchers [of paged_closed_issues "''o''" "Some ''r''" first_closed_issues_page
      paged_contributors "''r''" first_contributors_page]
  from t h1 have c1: "closed_issues first_closed_issues_page ''o'' (Some ''r'') =
      closed_issues paged_closed_issues ''o'' (Some ''r'')"
    by blast
  from t h2 have c2: "contributors first_contributors_page ''o'' ''r'' =
      contributors paged_contributors ''o'' ''r''"
    by blast
  have e1: "closed_issues first_closed_issues_page ''o'' (Some ''r'') =
       ([''https://api.github.com/repos/o/r/issues?state=closed''], [(((2024, 1, 1), 0), 1)])"
    by (simp add: closed_issues_def closed_issues_url_def first_closed_issues_page_def Let_def
        groupby_size_def dt_normalize_def)
  have e2: "contributors first_contributors_page ''o'' ''r'' =
       ([''https://api.github.com/repos/o/r/contributors''], [(''ann'', 40)])"
    by (simp add: contributors_def contributors_url_def first_contributors_page_def Let_def)
  from h1 h2 c1 c2 e1 e2 show ?thesis by simp
qed

subsection \<open>C10: contributors-gender\<close>

text \<open>
  C10, as the code has it. Let every display name that is not \<^verbatim>\<open>None\<close> have at least one
  token. Then \<^verbatim>\<open>contributors_gender\<close> succeeds, and its result is the inner join of the
  reference table with the first tokens of the display names that are not \<^verbatim>\<open>None\<close>, in the
  order of the contributors: a contributor without display name is in no row. In any
  case, dropping the contributors without display name from the input changes nothing.
\<close>

theorem contributors_gender_names:
  assumes "\<forall>c \<in> set (get_contributors (owner @ ''/'' @ r)). \<forall>n. name c = Some n \<longrightarrow> split n \<noteq> []"
  shows "contributors_gender get_contributors name_gender owner (Some r) =
           Inr (merge_inner
                  (concat (map (\<lambda>c. case name c of None \<Rightarrow> [] | Some n \<Rightarrow> take 1 (split n))
                     (get_contributors (owner @ ''/'' @ r))))
                  name_gender)
         \<and> contributors_gender (\<lambda>x. filter (\<lambda>c. name c \<noteq> None) (get_contributors x)) name_gender owner (Some r) =
             contributors_gender get_contributors name_gender owner (Some r)"
proof
  show "contributors_gender get_contributors name_gender owner (Some r) =
           Inr (merge_inner
                  (concat (map (\<lambda>c. case name c of None \<Rightarrow> [] | Some n \<Rightarrow> take 1 (split n))
                     (get_contributors (owner @ ''/'' @ r))))
                  name_gender)"
    using assms by (simp add: contributors_gender_def collect_names_eq)
  show "contributors_gender (\<lambda>x. filter (\<lambda>c. name c \<noteq> None) (get_contributors x)) name_gender owner (Some r) =
             contributors_gender get_contributors name_gender owner (Some r)"
    by (simp only: contributors_gender_def collect_names_filter)
qed

text \<open>
  Jane Doe, a contributor without display name, and Xyzzy Unknown, against a table that
  knows Jane and John: one row, for Jane.
\<close>

theorem contributors_gender_names_witness:
  "contributors_gender three_contributors name_gender_sample ''o'' (Some ''r'') =
     Inr [(unicode_of ''Jane'', ''female'')]"
proof -
  have h: "\<forall>c \<in> set (three_contributors (''o'' @ ''/'' @ ''r'')). \<forall>n. name c = Some n \<longrightarrow> split n \<noteq> []"
    by (auto simp add: three_contributors_def split_jane split_xyzzy)
  have n: "concat (map (\<lambda>c. case name c of None \<Rightarrow> [] | Some n \<Rightarrow> take 1 (split n))
             (three_contributors (''o'' @ ''/'' @ ''r''))) = [unicode_of ''Jane'', unicode_of ''Xyzzy'']"
    by (simp add: three_contributors_def split_jane split_xyzzy)
  have m: "merge_inner [unicode_of ''Jane'', unicode_of ''Xyzzy''] name_gender_sample =
      [(unicode_of ''Jane'', ''female'')]"
    by (simp add: merge_inner_def name_gender_sample_def unicode_of_def)
  from contributors_gender_names [of three_contributors "''o''" "''r''" name_gender_sample, OF h]
  have "contributors_gender three_contributors name_gender_sample ''o'' (Some ''r'') =
      Inr (merge_inner
             (concat (map (\<lambda>c. case name c of None \<Rightarrow> [] | Some n \<Rightarrow> take 1 (split n))
                (three_contributors (''o'' @ ''/'' @ ''r''))))
             name_gender_sample)"
    by (rule conjunct1)
  then show ?thesis
    unfolding n m .
qed

text \<open>
  C10 as stated fails: a display name that is not \<^verbatim>\<open>None\<close> and has no token, such as a
  single space, contributes no token to the join; \<^verbatim>\<open>split()[0]\<close> raises \<^verbatim>\<open>IndexError\<close>.
\<close>

theorem contributors_gender_blank_name_counterexample:
  "contributors_gender nameless_contributors name_gender_sample ''o'' (Some ''r'') = Inl IndexError"
  by (simp add: contributors_gender_def nameless_contributors_def split_blank)

end
